theory Spec2Isabelle
  imports Main "HOL-Library.Word"
begin

section \<open>Shared data model\<close>

text \<open>
  Go's \<open>int\<close> values (user ids, room ids, counters, the loop index of \<open>SetStats\<close>) are
  modelled as \<open>int\<close>: the functions below only compare, convert and print them, and the one
  increment (\<open>i++\<close> under the guard \<open>i < ModeEnumMaxValue\<close>) cannot leave the 64-bit
  range. Explicit \<open>int64\<close> values are 64-bit words read as signed numbers. A \<open>float64\<close> is
  its IEEE-754 bit pattern; its arithmetic is never used. Pointers to structs are modelled
  by the struct they point to.
\<close>

type_synonym int64 = "64 word"
type_synonym float64 = "64 word"

text \<open>A Go \<open>error\<close> value, identified by the message that \<open>%v\<close> prints for it.\<close>

datatype error = Error string

fun error_message :: "error \<Rightarrow> string" where
  "error_message (Error msg) = msg"

text \<open>\<open>common.Mode\<close>: an integer-based enumeration; \<open>common.Mode(i)\<close> is the identity on it.\<close>

type_synonym Mode = int

text \<open>A \<open>net.Conn\<close>, identified by a handle.\<close>

type_synonym conn = nat

subsection \<open>\<open>strconv.Itoa\<close> and \<open>fmt.Sprintf\<close>\<close>

definition digit_char :: "nat \<Rightarrow> char" where
  "digit_char d = ''0123456789'' ! d"

fun nat_decimal :: "nat \<Rightarrow> string" where
  "nat_decimal n = (if n < 10 then [digit_char n] else nat_decimal (n div 10) @ [digit_char (n mod 10)])"

declare nat_decimal.simps [simp del]

text \<open>\<open>strconv.Itoa\<close> (and \<open>strconv.FormatInt\<close> in base 10): the decimal text of an integer.\<close>

definition Itoa :: "int \<Rightarrow> string" where
  "Itoa i = (if i < 0 then CHR ''-'' # nat_decimal (nat (- i)) else nat_decimal (nat i))"

text \<open>
  The operands of \<open>fmt.Sprintf\<close> that the source passes: integers, strings and errors.
  The verb \<open>%v\<close> prints an integer in decimal, a string as it is and an error by its message.
\<close>

datatype fmt_arg = Int_arg int | String_arg string | Error_arg error

fun format_v :: "fmt_arg \<Rightarrow> string" where
  "format_v (Int_arg i) = Itoa i"
| "format_v (String_arg s) = s"
| "format_v (Error_arg e) = error_message e"

text \<open>
  \<open>fmt.Sprintf\<close> restricted to the verb \<open>%v\<close>, the only one the source uses. A verb without
  an operand prints \<open>%!v(MISSING)\<close> as Go does; every other character is copied.
\<close>

fun Sprintf :: "string \<Rightarrow> fmt_arg list \<Rightarrow> string" where
  "Sprintf [] args = []"
| "Sprintf (c # fmt) args =
     (if c = CHR ''%'' then
        (case fmt of
           [] \<Rightarrow> ''%!(NOVERB)''
         | d # rest \<Rightarrow>
             (if d = CHR ''v'' then
                (case args of
                   [] \<Rightarrow> ''%!v(MISSING)'' @ Sprintf rest []
                 | a # args' \<Rightarrow> format_v a @ Sprintf rest args')
              else c # Sprintf fmt args))
      else c # Sprintf fmt args)"

section \<open>User sessions (\<open>sessions/user.go\<close>)\<close>

text \<open>
  The columns of \<open>db.User\<close> that the source reads. \<open>User_Id\<close> is the field \<open>Id\<close>, and
  \<open>Status_MapId\<close> below is the field \<open>MapId\<close> of \<open>objects.ClientStatus\<close>; Isabelle has
  one name space for the fields of all records.
\<close>

record db_User =
  User_Id :: int
  SteamId :: string
  Username :: string
  AvatarUrl :: string
  Country :: string
  MuteEndTime :: int64

record ClientStatus =
  Status :: int
  Status_MapId :: int
  MapMd5 :: string
  GameMode :: Mode
  Content :: string
  Modifiers :: int64

text \<open>
  The session struct. \<open>mutex\<close> is the state of \<open>sync.Mutex\<close>: \<open>True\<close> while it is held.
  \<open>stats\<close> is the Go map from mode to the statistics row read from the database; the rows
  are of an arbitrary type \<open>'s\<close>, since the source never looks inside them.
\<close>

record 's User =
  Conn :: conn
  token :: string
  Info :: db_User
  mutex :: bool
  stats :: "Mode \<rightharpoonup> 's"
  lastPingTimestamp :: int64
  lastPongTimestamp :: int64
  lastDetectedProcesses :: "string list"
  status :: ClientStatus

text \<open>
  \<open>u.mutex.Lock()\<close> in a sequential run: on a held mutex the call never returns, which is the
  value \<open>None\<close>. \<open>u.mutex.Unlock()\<close> releases it.
\<close>

definition Lock :: "'s User \<Rightarrow> 's User option" where
  "Lock u = (if mutex u then None else Some (u\<lparr>mutex := True\<rparr>))"

definition Unlock :: "'s User \<Rightarrow> 's User" where
  "Unlock u = u\<lparr>mutex := False\<rparr>"

subsection \<open>\<open>SetStats\<close>\<close>

text \<open>
  The loop \<open>for i := 1; i < int(common.ModeEnumMaxValue); i++\<close>. \<open>db.GetUserStats\<close> and the
  constant \<open>common.ModeEnumMaxValue\<close> are parameters. An error of the lookup returns at once,
  with the map as the earlier iterations left it.
\<close>

function SetStats_loop ::
  "(int \<Rightarrow> string \<Rightarrow> Mode \<Rightarrow> error + 's) \<Rightarrow> int \<Rightarrow> int \<Rightarrow> 's User \<Rightarrow> error option \<times> 's User" where
  "SetStats_loop GetUserStats ModeEnumMaxValue i u =
     (if i < ModeEnumMaxValue then
        (case GetUserStats (User_Id (Info u)) (Country (Info u)) i of
           Inl err \<Rightarrow> (Some err, u)
         | Inr st \<Rightarrow>
             SetStats_loop GetUserStats ModeEnumMaxValue (i + 1) (u\<lparr>stats := (stats u)(i \<mapsto> st)\<rparr>))
      else (None, u))"
  by pat_completeness auto
termination
  by (relation "measure (\<lambda>(g, m, i, u). nat (m - i))") auto

declare SetStats_loop.simps [simp del]

definition SetStats ::
  "(int \<Rightarrow> string \<Rightarrow> Mode \<Rightarrow> error + 's) \<Rightarrow> int \<Rightarrow> 's User \<Rightarrow> (error option \<times> 's User) option" where
  "SetStats GetUserStats ModeEnumMaxValue u =
     (case Lock u of
        None \<Rightarrow> None
      | Some u1 \<Rightarrow>
          (case SetStats_loop GetUserStats ModeEnumMaxValue 1 u1 of
             (err, u2) \<Rightarrow> Some (err, Unlock u2)))"

subsection \<open>\<open>IsMuted\<close>\<close>

text \<open>\<open>now\<close> is the reading of \<open>time.Now().UnixMilli()\<close>.\<close>

definition IsMuted :: "int64 \<Rightarrow> 's User \<Rightarrow> (bool \<times> 's User) option" where
  "IsMuted now u =
     (case Lock u of
        None \<Rightarrow> None
      | Some u1 \<Rightarrow> Some (sint now < sint (MuteEndTime (Info u1)), Unlock u1))"

subsection \<open>\<open>GetClientStatus\<close> and \<open>SetClientStatus\<close>\<close>

text \<open>\<open>log.Println\<close> and \<open>log.Printf\<close> append one line to the log.\<close>

definition Println :: "error \<Rightarrow> string list \<Rightarrow> string list" where
  "Println err lg = lg @ [error_message err]"

definition Printf :: "string \<Rightarrow> fmt_arg list \<Rightarrow> string list \<Rightarrow> string list" where
  "Printf fmt args lg = lg @ [Sprintf fmt args]"

definition GetClientStatus :: "'s User \<Rightarrow> (ClientStatus \<times> 's User) option" where
  "GetClientStatus u =
     (case Lock u of
        None \<Rightarrow> None
      | Some u1 \<Rightarrow> Some (status u1, Unlock u1))"

text \<open>
  \<open>addUserClientStatusToRedis\<close> is not among the source files, so it is a parameter: it is
  handed the session as it is at the moment of the call and the cache, and returns its
  error, if any, and the cache it leaves. The state is the session, the cache of type
  \<open>'c\<close> and the log.
\<close>

definition SetClientStatus ::
  "('s User \<Rightarrow> 'c \<Rightarrow> error option \<times> 'c) \<Rightarrow> ClientStatus \<Rightarrow> 's User \<times> 'c \<times> string list \<Rightarrow>
     ('s User \<times> 'c \<times> string list) option" where
  "SetClientStatus addUserClientStatusToRedis new_status w =
     (case w of (u, cache, lg) \<Rightarrow>
        (case Lock u of
           None \<Rightarrow> None
         | Some u1 \<Rightarrow>
             (let u2 = u1\<lparr>status := new_status\<rparr>;
                  u3 = Unlock u2
              in case addUserClientStatusToRedis u3 cache of
                   (Some err, cache') \<Rightarrow> Some (u3, cache', Println err lg)
                 | (None, cache') \<Rightarrow> Some (u3, cache', lg))))"

subsection \<open>Redis keys of a session\<close>

definition getRedisSessionKey :: "'s User \<Rightarrow> string" where
  "getRedisSessionKey u = Sprintf ''quaver:server:session:%v'' [String_arg (token u)]"

definition getRedisClientStatusKey :: "'s User \<Rightarrow> string" where
  "getRedisClientStatusKey u = Sprintf ''quaver:server:user_status:%v'' [Int_arg (User_Id (Info u))]"

section \<open>Sending packets (\<open>SendPacketToConnection\<close>, \<open>SendPacketToUser\<close>, \<open>SendPacketToUsers\<close>)\<close>

text \<open>
  What a send does to the outside world, in order: a call of \<open>json.Marshal\<close>, a text frame
  written to a connection (or the failed attempt to write it), a line of the log.
\<close>

datatype event =
  Marshal_call
| Write_ok conn string
| Write_failed conn string
| Log_line string

text \<open>
  \<open>json.Marshal\<close> and \<open>wsutil.WriteServerText\<close> are parameters: the first gives the bytes of
  a payload or an error, the second the error of writing given bytes to a given connection,
  if any.
\<close>

definition SendPacketToConnection ::
  "('d \<Rightarrow> error + string) \<Rightarrow> (conn \<Rightarrow> string \<Rightarrow> error option) \<Rightarrow> 'd \<Rightarrow> conn \<Rightarrow> event list \<Rightarrow> event list" where
  "SendPacketToConnection Marshal WriteServerText data c tr =
     (case Marshal data of
        Inl err \<Rightarrow> tr @ [Marshal_call, Log_line (error_message err)]
      | Inr j \<Rightarrow>
          (case WriteServerText c j of
             Some err \<Rightarrow> tr @ [Marshal_call, Write_failed c j, Log_line (error_message err)]
           | None \<Rightarrow> tr @ [Marshal_call, Write_ok c j, Log_line (Sprintf ''SENT - %v'' [String_arg j])]))"

definition SendPacketToUser ::
  "('d \<Rightarrow> error + string) \<Rightarrow> (conn \<Rightarrow> string \<Rightarrow> error option) \<Rightarrow> 'd \<Rightarrow> 's User \<Rightarrow> event list \<Rightarrow> event list" where
  "SendPacketToUser Marshal WriteServerText data user tr =
     SendPacketToConnection Marshal WriteServerText data (Conn user) tr"

fun SendPacketToUsers ::
  "('d \<Rightarrow> error + string) \<Rightarrow> (conn \<Rightarrow> string \<Rightarrow> error option) \<Rightarrow> 'd \<Rightarrow> 's User list \<Rightarrow> event list \<Rightarrow> event list" where
  "SendPacketToUsers Marshal WriteServerText data [] tr = tr"
| "SendPacketToUsers Marshal WriteServerText data (user # users) tr =
     SendPacketToUsers Marshal WriteServerText data users
       (SendPacketToUser Marshal WriteServerText data user tr)"

text \<open>Readings of a trace.\<close>

fun is_write :: "event \<Rightarrow> bool" where
  "is_write (Write_ok c j) = True"
| "is_write (Write_failed c j) = True"
| "is_write e = False"

definition marshal_calls :: "event list \<Rightarrow> nat" where
  "marshal_calls tr = length (filter (\<lambda>e. e = Marshal_call) tr)"

definition write_attempts :: "event list \<Rightarrow> event list" where
  "write_attempts tr = filter is_write tr"

subsection \<open>The sends with the state of the outside world\<close>

text \<open>
  The same three functions, with the world that \<open>json.Marshal\<close> and
  \<open>wsutil.WriteServerText\<close> act on threaded through the calls: \<open>json.Marshal\<close> runs the
  payload's own \<open>MarshalJSON\<close> methods and a connection can fail on one write and not on
  another, so each call is handed the world of type \<open>'e\<close> and returns it with its result. The
  outcome for one recipient may then differ from the outcome for the next. The state is
  the world and the trace.
\<close>

definition SendPacketToConnection_env ::
  "('e \<Rightarrow> 'd \<Rightarrow> (error + string) \<times> 'e) \<Rightarrow> ('e \<Rightarrow> conn \<Rightarrow> string \<Rightarrow> error option \<times> 'e) \<Rightarrow>
     'd \<Rightarrow> conn \<Rightarrow> 'e \<times> event list \<Rightarrow> 'e \<times> event list" where
  "SendPacketToConnection_env Marshal WriteServerText data c s =
     (case s of (env, tr) \<Rightarrow>
        (case Marshal env data of
           (Inl err, env1) \<Rightarrow> (env1, tr @ [Marshal_call, Log_line (error_message err)])
         | (Inr j, env1) \<Rightarrow>
             (case WriteServerText env1 c j of
                (Some err, env2) \<Rightarrow>
                  (env2, tr @ [Marshal_call, Write_failed c j, Log_line (error_message err)])
              | (None, env2) \<Rightarrow>
                  (env2, tr @ [Marshal_call, Write_ok c j,
                               Log_line (Sprintf ''SENT - %v'' [String_arg j])]))))"

definition SendPacketToUser_env ::
  "('e \<Rightarrow> 'd \<Rightarrow> (error + string) \<times> 'e) \<Rightarrow> ('e \<Rightarrow> conn \<Rightarrow> string \<Rightarrow> error option \<times> 'e) \<Rightarrow>
     'd \<Rightarrow> 's User \<Rightarrow> 'e \<times> event list \<Rightarrow> 'e \<times> event list" where
  "SendPacketToUser_env Marshal WriteServerText data user s =
     SendPacketToConnection_env Marshal WriteServerText data (Conn user) s"

fun SendPacketToUsers_env ::
  "('e \<Rightarrow> 'd \<Rightarrow> (error + string) \<times> 'e) \<Rightarrow> ('e \<Rightarrow> conn \<Rightarrow> string \<Rightarrow> error option \<times> 'e) \<Rightarrow>
     'd \<Rightarrow> 's User list \<Rightarrow> 'e \<times> event list \<Rightarrow> 'e \<times> event list" where
  "SendPacketToUsers_env Marshal WriteServerText data [] s = s"
| "SendPacketToUsers_env Marshal WriteServerText data (user # users) s =
     SendPacketToUsers_env Marshal WriteServerText data users
       (SendPacketToUser_env Marshal WriteServerText data user s)"

section \<open>The Redis cache of multiplayer games (\<open>multiplayer/redis.go\<close>)\<close>

subsection \<open>The Redis commands the source issues\<close>

text \<open>
  The server as the client sees it: whether a command reaches it, and the hashes it stores
  by key. \<open>HSET key f1 v1 f2 v2 ...\<close> sets the named fields of the hash at the key, creating
  it when absent and keeping its other fields; \<open>DEL key\<close> removes the key. A command that
  does not reach the server returns an error and leaves the store as it was.
\<close>

record Redis =
  reachable :: bool
  hashes :: "string \<rightharpoonup> (string \<rightharpoonup> string)"

fun hset_fields :: "(string \<rightharpoonup> string) \<Rightarrow> string list \<Rightarrow> (string \<rightharpoonup> string)" where
  "hset_fields h (f # v # rest) = hset_fields (h(f \<mapsto> v)) rest"
| "hset_fields h rest = h"

definition HSet :: "Redis \<Rightarrow> string \<Rightarrow> string list \<Rightarrow> error option \<times> Redis" where
  "HSet rdb key values =
     (if \<not> reachable rdb then (Some (Error ''dial tcp: connection refused''), rdb)
      else if values = [] \<or> odd (length values)
        then (Some (Error ''ERR wrong number of arguments for hset command''), rdb)
      else (None, rdb\<lparr>hashes := (hashes rdb)(key \<mapsto>
              hset_fields (case hashes rdb key of None \<Rightarrow> Map.empty | Some h \<Rightarrow> h) values)\<rparr>))"

definition Del :: "Redis \<Rightarrow> string \<Rightarrow> error option \<times> Redis" where
  "Del rdb key =
     (if \<not> reachable rdb then (Some (Error ''dial tcp: connection refused''), rdb)
      else (None, rdb\<lparr>hashes := (hashes rdb)(key := None)\<rparr>))"

text \<open>\<open>HGET key field\<close>, the lookup another process makes: absent when the key or the field is.\<close>

definition HGet :: "Redis \<Rightarrow> string \<Rightarrow> string \<Rightarrow> string option" where
  "HGet rdb key field = (case hashes rdb key of None \<Rightarrow> None | Some h \<Rightarrow> h field)"

subsection \<open>Helpers of package \<open>utils\<close>\<close>

text \<open>Modelled from the spec: \<open>utils.BoolToInt\<close> is not among the source files; the spec writes
  a boolean field of a cache record "as 0/1".
\<close>

definition BoolToInt :: "bool \<Rightarrow> int" where
  "BoolToInt b = (if b then 1 else 0)"

text \<open>Modelled from the spec: \<open>utils.Includes\<close> is not among the source files; the spec derives
  the flags of a player from the membership of the user id in the room's ready set and
  without-map set.
\<close>

definition Includes :: "'a list \<Rightarrow> 'a \<Rightarrow> bool" where
  "Includes xs x = (x \<in> set xs)"

text \<open>Modelled from the spec: \<open>utils.Find\<close> is not among the source files; the spec keys the
  per-player wins and modifiers by user id, so the call gives the first entry that satisfies
  the predicate and an error when there is none.
\<close>

definition Find :: "'a list \<Rightarrow> ('a \<Rightarrow> bool) \<Rightarrow> error + 'a" where
  "Find xs p = (case List.find p xs of None \<Rightarrow> Inl (Error ''not found'') | Some x \<Rightarrow> Inr x)"

subsection \<open>The game\<close>

text \<open>
  The fields of \<open>objects.MultiplayerGame\<close> and of its per-player entries that the source
  reads. \<open>Game_Id\<close>, \<open>Wins_Id\<close> and \<open>Mods_Id\<close> are the three fields \<open>Id\<close>, and
  \<open>Mods_Modifiers\<close> is the field \<open>Modifiers\<close> of \<open>objects.MultiplayerGamePlayerMods\<close>.
  The enumerations \<open>Ruleset\<close>, \<open>MapGameMode\<close> and \<open>FreeModType\<close> are the integers that
  \<open>int(...)\<close> reads from them.
\<close>

record MultiplayerGamePlayerWins =
  Wins_Id :: int
  Wins :: int

record MultiplayerGamePlayerMods =
  Mods_Id :: int
  Mods_Modifiers :: int64

record MultiplayerGame =
  Game_Id :: int
  Name :: string
  HasPassword :: bool
  MaxPlayers :: int
  MapMD5 :: string
  MapId :: int
  MapsetId :: int
  MapName :: string
  HostId :: int
  Ruleset :: int
  IsHostRotation :: bool
  MapGameMode :: Mode
  MapDifficultyRating :: float64
  InProgress :: bool
  GlobalModifiers :: int64
  FreeModType :: int
  IsTournamentMode :: bool
  PlayerWins :: "MultiplayerGamePlayerWins list"
  PlayerModifiers :: "MultiplayerGamePlayerMods list"
  PlayersReady :: "int list"
  PlayersWithoutMap :: "int list"

record Game =
  Data :: MultiplayerGame

definition getMatchSettingsRedisKey :: "Game \<Rightarrow> string" where
  "getMatchSettingsRedisKey game =
     Sprintf ''quaver:server:multiplayer:%v'' [Int_arg (Game_Id (Data game))]"

definition getPlayerRedisKey :: "Game \<Rightarrow> int \<Rightarrow> string" where
  "getPlayerRedisKey game player_id =
     Sprintf ''quaver:server:multiplayer:%v:player:%v'' [Int_arg (Game_Id (Data game)), Int_arg player_id]"

subsection \<open>\<open>cacheMatchSettings\<close>\<close>

text \<open>
  The state is the Redis server and the log. \<open>strconv.FormatFloat\<close> is a parameter, called
  with the format \<open>'f'\<close>, the precision \<open>-1\<close> and the bit size \<open>64\<close> as in the source.
\<close>

text \<open>The slice \<open>settings\<close> of the source, as it is handed to \<open>HSet\<close>.\<close>

definition match_settings :: "(float64 \<Rightarrow> char \<Rightarrow> int \<Rightarrow> int \<Rightarrow> string) \<Rightarrow> Game \<Rightarrow> string list" where
  "match_settings FormatFloat game =
     [''n'', Name (Data game),
      ''pw'', Itoa (BoolToInt (HasPassword (Data game))),
      ''mp'', Itoa (MaxPlayers (Data game)),
      ''md5'', MapMD5 (Data game),
      ''mid'', Itoa (MapId (Data game)),
      ''msid'', Itoa (MapsetId (Data game)),
      ''map'', MapName (Data game),
      ''host'', Itoa (HostId (Data game)),
      ''r'', Itoa (Ruleset (Data game)),
      ''hr'', Itoa (BoolToInt (IsHostRotation (Data game))),
      ''gm'', Itoa (MapGameMode (Data game)),
      ''d'', FormatFloat (MapDifficultyRating (Data game)) CHR ''f'' (- 1) 64,
      ''inp'', Itoa (BoolToInt (InProgress (Data game))),
      ''m'', Itoa (sint (GlobalModifiers (Data game))),
      ''fm'', Itoa (FreeModType (Data game)),
      ''trn'', Itoa (BoolToInt (IsTournamentMode (Data game)))]"

definition cacheMatchSettings ::
  "(float64 \<Rightarrow> char \<Rightarrow> int \<Rightarrow> int \<Rightarrow> string) \<Rightarrow> Game \<Rightarrow> Redis \<times> string list \<Rightarrow> Redis \<times> string list" where
  "cacheMatchSettings FormatFloat game w =
     (case w of (rdb, lg) \<Rightarrow>
        (let settings = match_settings FormatFloat game
         in case HSet rdb (getMatchSettingsRedisKey game) settings of
              (Some err, rdb') \<Rightarrow>
                (rdb', Printf (''Failed to cache match settings in redis - %v'' @ [CHR 0x0A]) [Error_arg err] lg)
            | (None, rdb') \<Rightarrow> (rdb', lg)))"

subsection \<open>\<open>cachePlayer\<close> and \<open>deleteCachedPlayer\<close>\<close>

text \<open>
  \<open>sessions.GetUserById\<close> is not among the source files, so it is a parameter: the live
  session of a user id, or \<open>None\<close> for Go's \<open>nil\<close>.
\<close>

text \<open>The slice \<open>player\<close> of the source, with the two lookups that precede it.\<close>

definition player_fields :: "Game \<Rightarrow> int \<Rightarrow> 's User \<Rightarrow> string list" where
  "player_fields game player_id user =
     (let wins = (case Find (PlayerWins (Data game)) (\<lambda>x. Wins_Id x = player_id) of
                    Inl err \<Rightarrow> \<lparr>Wins_Id = 0, Wins = 0\<rparr>
                  | Inr x \<Rightarrow> x);
          mods = (case Find (PlayerModifiers (Data game)) (\<lambda>x. Mods_Id x = player_id) of
                    Inl err \<Rightarrow> \<lparr>Mods_Id = 0, Mods_Modifiers = 0\<rparr>
                  | Inr x \<Rightarrow> x)
      in [''id'', Itoa (User_Id (Info user)),
          ''u'', Username (Info user),
          ''sid'', SteamId (Info user),
          ''a'', AvatarUrl (Info user),
          ''c'', Country (Info user),
          ''w'', Itoa (Wins wins),
          ''m'', Itoa (sint (Mods_Modifiers mods)),
          ''r'', Itoa (BoolToInt (Includes (PlayersReady (Data game)) player_id)),
          ''hm'', Itoa (BoolToInt (\<not> Includes (PlayersWithoutMap (Data game)) player_id))])"

definition cachePlayer ::
  "(int \<Rightarrow> 's User option) \<Rightarrow> Game \<Rightarrow> int \<Rightarrow> Redis \<times> string list \<Rightarrow> Redis \<times> string list" where
  "cachePlayer GetUserById game player_id w =
     (case w of (rdb, lg) \<Rightarrow>
        (case GetUserById player_id of
           None \<Rightarrow> (rdb, lg)
         | Some user \<Rightarrow>
             (let player = player_fields game player_id user
              in case HSet rdb (getPlayerRedisKey game player_id) player of
                   (Some err, rdb') \<Rightarrow>
                     (rdb', Printf (''Failed to cache multiplayer player in redis - %v'' @ [CHR 0x0A]) [Error_arg err] lg)
                 | (None, rdb') \<Rightarrow> (rdb', lg))))"

definition deleteCachedPlayer :: "Game \<Rightarrow> int \<Rightarrow> Redis \<times> string list \<Rightarrow> Redis \<times> string list" where
  "deleteCachedPlayer game userId w =
     (case w of (rdb, lg) \<Rightarrow>
        (case Del rdb (getPlayerRedisKey game userId) of
           (Some err, rdb') \<Rightarrow>
             (rdb', Printf (''Failed to remove multiplayer player  in redis - %v'' @ [CHR 0x0A]) [Error_arg err] lg)
         | (None, rdb') \<Rightarrow> (rdb', lg)))"

section \<open>Example data\<close>

definition idle_status :: ClientStatus where
  "idle_status = \<lparr>Status = 0, Status_MapId = - 1, MapMd5 = [], GameMode = 1, Content = [], Modifiers = 0\<rparr>"

definition playing_status :: ClientStatus where
  "playing_status = \<lparr>Status = 2, Status_MapId = 812, MapMd5 = ''d41d8cd9'', GameMode = 1, Content = ''Song'', Modifiers = 16\<rparr>"

definition alice :: "nat User" where
  "alice = \<lparr>Conn = 1, token = ''tokA'',
     Info = \<lparr>User_Id = 7, SteamId = ''76561'', Username = ''alice'', AvatarUrl = ''a.png'',
             Country = ''CA'', MuteEndTime = 1000\<rparr>,
     mutex = False, stats = [1 \<mapsto> 11, 2 \<mapsto> 12, 3 \<mapsto> 13],
     lastPingTimestamp = 0, lastPongTimestamp = 0, lastDetectedProcesses = [],
     status = idle_status\<rparr>"

definition bob :: "nat User" where
  "bob = \<lparr>Conn = 2, token = ''tokB'',
     Info = \<lparr>User_Id = 8, SteamId = ''76562'', Username = ''bob'', AvatarUrl = ''b.png'',
             Country = ''US'', MuteEndTime = 0\<rparr>,
     mutex = False, stats = Map.empty,
     lastPingTimestamp = 0, lastPongTimestamp = 0, lastDetectedProcesses = [],
     status = idle_status\<rparr>"

text \<open>A database whose lookup of the statistics fails for mode 3 and succeeds otherwise.\<close>

definition failing_stats_db :: "int \<Rightarrow> string \<Rightarrow> Mode \<Rightarrow> error + nat" where
  "failing_stats_db user_id country mode =
     (if mode = 3 then Inl (Error ''sql: connection is closed'') else Inr (100 + nat mode))"

text \<open>
  Room 42 with at most 8 players, hosted by user 7, who is ready and has the map; user 8 has
  not got the map.
\<close>

definition room42 :: Game where
  "room42 = \<lparr>Data = \<lparr>Game_Id = 42, Name = ''room'', HasPassword = True, MaxPlayers = 8,
     MapMD5 = ''d41d8cd9'', MapId = 812, MapsetId = 90, MapName = ''Song'', HostId = 7,
     Ruleset = 0, IsHostRotation = False, MapGameMode = 1,
     MapDifficultyRating = 0x4039000000000000, InProgress = False, GlobalModifiers = 16,
     FreeModType = 2, IsTournamentMode = False,
     PlayerWins = [\<lparr>Wins_Id = 7, Wins = 3\<rparr>], PlayerModifiers = [],
     PlayersReady = [7], PlayersWithoutMap = [8]\<rparr>\<rparr>"

text \<open>The registry of live sessions in which users 7 and 8 are online.\<close>

definition online :: "int \<Rightarrow> nat User option" where
  "online user_id = (if user_id = 7 then Some alice else if user_id = 8 then Some bob else None)"

definition empty_redis :: Redis where
  "empty_redis = \<lparr>reachable = True, hashes = Map.empty\<rparr>"

definition down_redis :: Redis where
  "down_redis = \<lparr>reachable = False, hashes = Map.empty\<rparr>"

text \<open>The text of \<open>strconv.FormatFloat\<close> for the one rating used below, the double \<open>25\<close>.\<close>

definition example_FormatFloat :: "float64 \<Rightarrow> char \<Rightarrow> int \<Rightarrow> int \<Rightarrow> string" where
  "example_FormatFloat x fmt prec bitSize = (if x = 0x4039000000000000 then ''25'' else ''0'')"

text \<open>
  Payloads for the sends: a number, whose JSON text is its decimal text, and a channel, which
  \<open>json.Marshal\<close> refuses.
\<close>

datatype payload = Number int | Channel

definition example_Marshal :: "payload \<Rightarrow> error + string" where
  "example_Marshal p =
     (case p of
        Number n \<Rightarrow> Inr (Itoa n)
      | Channel \<Rightarrow> Inl (Error ''json: unsupported type: chan int''))"

text \<open>A network in which every write to the connection \<open>broken\<close> fails and every other succeeds.\<close>

definition write_fails_on :: "conn \<Rightarrow> conn \<Rightarrow> string \<Rightarrow> error option" where
  "write_fails_on broken c j = (if c = broken then Some (Error ''write: broken pipe'') else None)"

text \<open>
  A world that counts the calls of \<open>json.Marshal\<close>. The payload's \<open>MarshalJSON\<close> fails the
  first time it is called and gives the text of the payload from then on.
\<close>

definition flaky_Marshal :: "nat \<Rightarrow> payload \<Rightarrow> (error + string) \<times> nat" where
  "flaky_Marshal calls p =
     (if calls = 0 then Inl (Error ''json: error calling MarshalJSON'') else example_Marshal p,
      Suc calls)"

definition steady_Marshal :: "nat \<Rightarrow> payload \<Rightarrow> (error + string) \<times> nat" where
  "steady_Marshal calls p = (example_Marshal p, Suc calls)"

definition Write_unless :: "conn \<Rightarrow> nat \<Rightarrow> conn \<Rightarrow> string \<Rightarrow> error option \<times> nat" where
  "Write_unless broken calls c j = (write_fails_on broken c j, calls)"

text \<open>
  A propagation of the client status that reads the status through \<open>GetClientStatus\<close>, which
  takes the mutex, and stores two of its fields under the user-status key.
\<close>

definition status_to_redis :: "nat User \<Rightarrow> Redis \<Rightarrow> error option \<times> Redis" where
  "status_to_redis u rdb =
     (case GetClientStatus u of
        None \<Rightarrow> (Some (Error ''mutex is held''), rdb)
      | Some (st, u') \<Rightarrow>
          HSet rdb (getRedisClientStatusKey u') [''s'', Itoa (Status st), ''m'', Itoa (Status_MapId st)])"

section \<open>Properties of the user session\<close>

subsection \<open>\<open>SetStats\<close>\<close>

text \<open>
  The loop started at mode \<open>i\<close>, when the lookups of the modes from \<open>i\<close> up to \<open>k\<close>
  succeed and the loop ends at \<open>k\<close>, by the bound or by a failed lookup: the entries of the
  modes from \<open>i\<close> up to \<open>k\<close> are replaced and every other entry is kept.
\<close>

lemma SetStats_loop_prefix:
  assumes "i \<le> k" "k \<le> mx"
    and "\<forall>m. i \<le> m \<and> m < k \<longrightarrow> (\<exists>s. g (User_Id (Info u)) (Country (Info u)) m = Inr s)"
    and "k < mx \<longrightarrow> g (User_Id (Info u)) (Country (Info u)) k = Inl e"
  shows "SetStats_loop g mx i u =
    (if k < mx then Some e else None,
     u\<lparr>stats := (\<lambda>m. if i \<le> m \<and> m < k
                          then Some (projr (g (User_Id (Info u)) (Country (Info u)) m))
                          else stats u m)\<rparr>)"
  using assms
proof (induction g mx i u rule: SetStats_loop.induct)
  case (1 g mx i u)
  show ?case
  proof (cases "i < k")
    case True
    then obtain s where s: "g (User_Id (Info u)) (Country (Info u)) i = Inr s"
      using "1.prems"(3) by auto
    let ?u' = "u\<lparr>stats := (stats u)(i \<mapsto> s)\<rparr>"
    have lt: "i < mx" using True "1.prems"(2) by simp
    have ih: "SetStats_loop g mx (i + 1) ?u' =
      (if k < mx then Some e else None,
       ?u'\<lparr>stats := (\<lambda>m. if i + 1 \<le> m \<and> m < k
                             then Some (projr (g (User_Id (Info ?u')) (Country (Info ?u')) m))
                             else stats ?u' m)\<rparr>)"
      using "1.IH"[OF lt s] True "1.prems" by simp
    have eq: "?u'\<lparr>stats := (\<lambda>m. if i + 1 \<le> m \<and> m < k
                             then Some (projr (g (User_Id (Info ?u')) (Country (Info ?u')) m))
                             else stats ?u' m)\<rparr>
      = u\<lparr>stats := (\<lambda>m. if i \<le> m \<and> m < k
                            then Some (projr (g (User_Id (Info u)) (Country (Info u)) m))
                            else stats u m)\<rparr>"
    proof -
      have "(\<lambda>m. if i + 1 \<le> m \<and> m < k
                 then Some (projr (g (User_Id (Info u)) (Country (Info u)) m))
                 else ((stats u)(i \<mapsto> s)) m)
        = (\<lambda>m. if i \<le> m \<and> m < k
                 then Some (projr (g (User_Id (Info u)) (Country (Info u)) m))
                 else stats u m)"
        using True s by (auto simp: fun_eq_iff)
      then show ?thesis by (simp cong: if_cong)
    qed
    have step: "SetStats_loop g mx i u = SetStats_loop g mx (i + 1) ?u'"
      using lt s by (simp add: SetStats_loop.simps[of g mx i u])
    show ?thesis
      unfolding step ih eq ..
  next
    case False
    then have ik: "i = k" using "1.prems"(1) by simp
    have nil: "(\<lambda>m. if k \<le> m \<and> m < k
                    then Some (projr (g (User_Id (Info u)) (Country (Info u)) m))
                    else stats u m) = stats u"
      by (auto simp: fun_eq_iff)
    show ?thesis
    proof (cases "k < mx")
      case True
      then show ?thesis using ik "1.prems"(4)
        by (simp add: SetStats_loop.simps[of g mx k u] nil)
    next
      case False
      then show ?thesis using ik
        by (simp add: SetStats_loop.simps[of g mx k u] nil)
    qed
  qed
qed

text \<open>
  Claim C1, as the code has it. On a session whose mutex is free, let \<open>k\<close> be the mode at
  which \<open>SetStats\<close> stops: every tracked mode below \<open>k\<close> is looked up with success, and
  either \<open>k\<close> is \<open>ModeEnumMaxValue\<close> (every lookup succeeded) or the lookup of mode \<open>k\<close>
  fails with \<open>err\<close>. Then \<open>SetStats\<close> returns, with the mutex released: it returns \<open>err\<close> in
  the second case and no error in the first, and in the session's map the entries of the
  modes \<open>1\<close> up to \<open>k - 1\<close> hold the statistics just looked up, while every other entry
  (the failing mode, the later modes, the modes that are not tracked) is what it was. So
  when every lookup succeeds all modes from \<open>1\<close> to \<open>ModeEnumMaxValue - 1\<close> are updated, and
  when one fails the modes before it are updated all the same: nothing is rolled back.
\<close>

theorem SetStats_updates_modes_before_first_failure:
  assumes "\<not> mutex u" and "1 \<le> k" and "k \<le> ModeEnumMaxValue"
    and "\<forall>m. 1 \<le> m \<and> m < k \<longrightarrow>
           (\<exists>s. GetUserStats (User_Id (Info u)) (Country (Info u)) m = Inr s)"
    and "k < ModeEnumMaxValue \<longrightarrow>
           GetUserStats (User_Id (Info u)) (Country (Info u)) k = Inl err"
  shows "SetStats GetUserStats ModeEnumMaxValue u =
    Some (if k < ModeEnumMaxValue then Some err else None,
          u\<lparr>stats := (\<lambda>m. if 1 \<le> m \<and> m < k
                               then Some (projr (GetUserStats (User_Id (Info u)) (Country (Info u)) m))
                               else stats u m)\<rparr>)"
proof -
  let ?u1 = "u\<lparr>mutex := True\<rparr>"
  have lock: "Lock u = Some ?u1"
    using assms(1) by (simp add: Lock_def)
  have loop: "SetStats_loop GetUserStats ModeEnumMaxValue 1 ?u1 =
    (if k < ModeEnumMaxValue then Some err else None,
     ?u1\<lparr>stats := (\<lambda>m. if 1 \<le> m \<and> m < k
                           then Some (projr (GetUserStats (User_Id (Info ?u1)) (Country (Info ?u1)) m))
                           else stats ?u1 m)\<rparr>)"
    by (rule SetStats_loop_prefix) (use assms in simp_all)
  have unlock: "Unlock (?u1\<lparr>stats := f\<rparr>) = u\<lparr>stats := f\<rparr>" for f
    using assms(1) by (simp add: Unlock_def)
  show ?thesis
    by (simp add: SetStats_def lock loop unlock cong: if_cong)
qed

theorem SetStats_updates_modes_before_first_failure_witness:
  "map_option (\<lambda>(e, u). (e, stats u 1, stats u 2, stats u 3, stats u 4, mutex u))
     (SetStats failing_stats_db 4 alice) =
   Some (Some (Error ''sql: connection is closed''), Some 101, Some 102, Some 13, None, False)"
proof -
  have free: "\<not> mutex alice"
    by (simp add: alice_def)
  have ok: "\<forall>m. 1 \<le> m \<and> m < 3 \<longrightarrow>
      (\<exists>s. failing_stats_db (User_Id (Info alice)) (Country (Info alice)) m = Inr s)"
    by (simp add: failing_stats_db_def)
  have bad: "(3::int) < 4 \<longrightarrow>
      failing_stats_db (User_Id (Info alice)) (Country (Info alice)) 3 = Inl (Error ''sql: connection is closed'')"
    by (simp add: failing_stats_db_def)
  have "(1::int) \<le> 3" and "(3::int) \<le> 4"
    by simp_all
  then show ?thesis
    using SetStats_updates_modes_before_first_failure
      [of alice 3 4 failing_stats_db "Error ''sql: connection is closed''", OF free _ _ ok bad]
    by (simp add: failing_stats_db_def alice_def)
qed

theorem SetStats_all_or_nothing_counterexample:
  "failing_stats_db (User_Id (Info alice)) (Country (Info alice)) 3 = Inl (Error ''sql: connection is closed'')
   \<and> SetStats failing_stats_db 4 alice \<noteq> None
   \<and> fst (the (SetStats failing_stats_db 4 alice)) = Some (Error ''sql: connection is closed'')
   \<and> stats alice 1 = Some 11
   \<and> stats (snd (the (SetStats failing_stats_db 4 alice))) 1 = Some 101
   \<and> stats (snd (the (SetStats failing_stats_db 4 alice))) \<noteq> stats alice"
proof -
  have run: "SetStats failing_stats_db 4 alice =
    Some (Some (Error ''sql: connection is closed''), alice\<lparr>stats := [1 \<mapsto> 101, 2 \<mapsto> 102, 3 \<mapsto> 13]\<rparr>)"
    by (simp add: SetStats_def Lock_def Unlock_def SetStats_loop.simps failing_stats_db_def
        alice_def fun_eq_iff)
  have "stats (alice\<lparr>stats := [1 \<mapsto> 101, 2 \<mapsto> 102, 3 \<mapsto> 13]\<rparr>) 1 \<noteq> stats alice 1"
    by (simp add: alice_def)
  then have "stats (alice\<lparr>stats := [1 \<mapsto> 101, 2 \<mapsto> 102, 3 \<mapsto> 13]\<rparr>) \<noteq> stats alice"
    by metis
  then show ?thesis
    unfolding run by (simp add: failing_stats_db_def alice_def)
qed

subsection \<open>\<open>IsMuted\<close>\<close>

text \<open>
  Claim C4. On a session whose mutex is free, \<open>IsMuted\<close> returns, leaves the session as it
  was, and answers true exactly when the stored mute-expiry timestamp is strictly greater
  than the current time, both read as signed 64-bit numbers; when the two are equal it
  answers false. It is given the session and the clock only: no store and no cache.
\<close>

theorem IsMuted_iff_expiry_after_now:
  assumes "\<not> mutex u"
  shows "IsMuted now u = Some (sint now < sint (MuteEndTime (Info u)), u)
       \<and> IsMuted (MuteEndTime (Info u)) u = Some (False, u)"
  using assms by (simp add: IsMuted_def Lock_def Unlock_def)

theorem IsMuted_iff_expiry_after_now_witness:
  "IsMuted 999 alice = Some (True, alice) \<and> IsMuted 1000 alice = Some (False, alice)
   \<and> IsMuted 1001 alice = Some (False, alice)"
proof -
  have free: "\<not> mutex alice"
    by (simp add: alice_def)
  show ?thesis
    using IsMuted_iff_expiry_after_now [OF free, of 999]
      IsMuted_iff_expiry_after_now [OF free, of 1001]
    by (simp add: alice_def)
qed

subsection \<open>Redis keys\<close>

text \<open>
  Claim C5, as the code has it. Every key starts with the segment \<open>quaver\<close>: the session
  key is \<open>quaver:server:session:<token>\<close>, the user-status key is
  \<open>quaver:server:user_status:<userId>\<close>, the room-settings key is
  \<open>quaver:server:multiplayer:<roomId>\<close> and the per-player key is
  \<open>quaver:server:multiplayer:<roomId>:player:<userId>\<close>, the ids in decimal.
\<close>

theorem redis_keys_start_with_quaver:
  "getRedisSessionKey u = ''quaver:server:session:'' @ token u
   \<and> getRedisClientStatusKey u = ''quaver:server:user_status:'' @ Itoa (User_Id (Info u))
   \<and> getMatchSettingsRedisKey game = ''quaver:server:multiplayer:'' @ Itoa (Game_Id (Data game))
   \<and> getPlayerRedisKey game player_id =
       ''quaver:server:multiplayer:'' @ Itoa (Game_Id (Data game)) @ '':player:'' @ Itoa player_id"
  by (simp add: getRedisSessionKey_def getRedisClientStatusKey_def getMatchSettingsRedisKey_def
      getPlayerRedisKey_def)

lemma Itoa_examples: "Itoa 7 = ''7''" "Itoa 42 = ''42''" "Itoa (- 1) = ''-1''" "Itoa 0 = ''0''"
  by (simp_all add: Itoa_def nat_decimal.simps digit_char_def)

theorem redis_keys_published_scheme_counterexample:
  "token alice = ''tokA'' \<and> User_Id (Info alice) = 7 \<and> Game_Id (Data room42) = 42
   \<and> getRedisSessionKey alice = ''quaver:server:session:tokA''
   \<and> getRedisSessionKey alice \<noteq> ''server:session:tokA''
   \<and> getRedisClientStatusKey alice = ''quaver:server:user_status:7''
   \<and> getRedisClientStatusKey alice \<noteq> ''server:user_status:7''
   \<and> getMatchSettingsRedisKey room42 = ''quaver:server:multiplayer:42''
   \<and> getMatchSettingsRedisKey room42 \<noteq> ''server:multiplayer:42''
   \<and> getPlayerRedisKey room42 7 = ''quaver:server:multiplayer:42:player:7''
   \<and> getPlayerRedisKey room42 7 \<noteq> ''server:multiplayer:42:player:7''"
  by (simp add: getRedisSessionKey_def getRedisClientStatusKey_def getMatchSettingsRedisKey_def
      getPlayerRedisKey_def alice_def room42_def Itoa_examples)

section \<open>Properties of the sends\<close>

lemma SendPacketToConnection_appends:
  "SendPacketToConnection M W data c tr = tr @ SendPacketToConnection M W data c []"
  by (simp add: SendPacketToConnection_def split: sum.split option.split)

lemma SendPacketToUsers_trace:
  "SendPacketToUsers M W data users tr =
   tr @ concat (map (\<lambda>u. SendPacketToConnection M W data (Conn u) []) users)"
proof (induction users arbitrary: tr)
  case Nil
  show ?case by simp
next
  case (Cons user users)
  have "SendPacketToUser M W data user tr = tr @ SendPacketToConnection M W data (Conn user) []"
    unfolding SendPacketToUser_def by (rule SendPacketToConnection_appends)
  then show ?case
    by (simp add: Cons.IH)
qed

lemma marshal_calls_append: "marshal_calls (xs @ ys) = marshal_calls xs + marshal_calls ys"
  by (simp add: marshal_calls_def)

lemma marshal_calls_one: "marshal_calls (SendPacketToConnection M W data c []) = 1"
  by (simp add: SendPacketToConnection_def marshal_calls_def split: sum.split option.split)

lemma marshal_calls_all:
  "marshal_calls (concat (map (\<lambda>u. SendPacketToConnection M W data (Conn u) []) users)) = length users"
proof (induction users)
  case Nil
  show ?case by (simp add: marshal_calls_def)
next
  case (Cons user users)
  then show ?case by (simp add: marshal_calls_append marshal_calls_one)
qed

lemma write_attempts_append: "write_attempts (xs @ ys) = write_attempts xs @ write_attempts ys"
  by (simp add: write_attempts_def)

lemma write_attempts_ok:
  "M data = Inr j \<Longrightarrow>
   write_attempts (concat (map (\<lambda>u. SendPacketToConnection M W data (Conn u) []) users)) =
   map (\<lambda>u. if W (Conn u) j = None then Write_ok (Conn u) j else Write_failed (Conn u) j) users"
  by (induction users)
    (auto simp: write_attempts_def SendPacketToConnection_def split: option.split)

lemma write_attempts_unserialisable:
  "M data = Inl err \<Longrightarrow>
   write_attempts (concat (map (\<lambda>u. SendPacketToConnection M W data (Conn u) []) users)) = []"
  by (induction users) (auto simp: write_attempts_def SendPacketToConnection_def)

text \<open>
  Claim C2, as the code has it. \<open>SendPacketToUsers\<close> does for each recipient in turn what
  \<open>SendPacketToConnection\<close> does for that recipient's connection, so \<open>json.Marshal\<close> is
  called once for every recipient, not once for the call. When the payload serialises to
  \<open>j\<close>, the writes attempted are one per recipient, in the order of the list, each of \<open>j\<close> to
  that recipient's connection; when it does not, no write is attempted.
\<close>

theorem SendPacketToUsers_serialises_per_recipient:
  "SendPacketToUsers M W data users [] =
     concat (map (\<lambda>u. SendPacketToConnection M W data (Conn u) []) users)
   \<and> marshal_calls (SendPacketToUsers M W data users []) = length users
   \<and> write_attempts (SendPacketToUsers M W data users []) =
       (case M data of
          Inl err \<Rightarrow> []
        | Inr j \<Rightarrow> map (\<lambda>u. if W (Conn u) j = None then Write_ok (Conn u) j
                             else Write_failed (Conn u) j) users)"
proof -
  have tr: "SendPacketToUsers M W data users [] =
      concat (map (\<lambda>u. SendPacketToConnection M W data (Conn u) []) users)"
    using SendPacketToUsers_trace [of M W data users "[]"] by simp
  show ?thesis
  proof (cases "M data")
    case (Inl err)
    then show ?thesis
      unfolding tr by (simp add: marshal_calls_all write_attempts_unserialisable)
  next
    case (Inr j)
    then show ?thesis
      unfolding tr by (simp add: marshal_calls_all write_attempts_ok)
  qed
qed

theorem SendPacketToUsers_serialises_once_counterexample:
  "SendPacketToUsers example_Marshal (write_fails_on 99) (Number 5) [alice, bob] [] =
     [Marshal_call, Write_ok 1 ''5'', Log_line ''SENT - 5'',
      Marshal_call, Write_ok 2 ''5'', Log_line ''SENT - 5'']
   \<and> marshal_calls (SendPacketToUsers example_Marshal (write_fails_on 99) (Number 5) [alice, bob] []) = 2"
  by (simp add: SendPacketToUser_def SendPacketToConnection_def example_Marshal_def
      write_fails_on_def alice_def bob_def marshal_calls_def Itoa_def nat_decimal.simps digit_char_def)

subsection \<open>The sends with the state of the outside world\<close>

text \<open>With calls that leave the world alone, these are the sends above.\<close>

lemma SendPacketToUsers_env_conservative:
  "SendPacketToUsers_env (\<lambda>env d. (M d, env)) (\<lambda>env c j. (W c j, env)) data users (env, tr) =
   (env, SendPacketToUsers M W data users tr)"
proof (induction users arbitrary: tr)
  case Nil
  show ?case by simp
next
  case (Cons user users)
  have "SendPacketToUser_env (\<lambda>env d. (M d, env)) (\<lambda>env c j. (W c j, env)) data user (env, tr) =
      (env, SendPacketToUser M W data user tr)"
    by (simp add: SendPacketToUser_env_def SendPacketToConnection_env_def SendPacketToUser_def
        SendPacketToConnection_def split: sum.split option.split)
  then show ?case
    by (simp add: Cons.IH)
qed

lemma SendPacketToUsers_env_append:
  "SendPacketToUsers_env M W data (xs @ ys) s =
   SendPacketToUsers_env M W data ys (SendPacketToUsers_env M W data xs s)"
  by (induction xs arbitrary: s) simp_all

text \<open>The three things a send to one recipient can do, by its own two calls.\<close>

lemma SendPacketToUser_env_unserialisable:
  assumes "M (fst s) data = (Inl err, env1)"
  shows "SendPacketToUser_env M W data b s =
    (env1, snd s @ [Marshal_call, Log_line (error_message err)])"
  using assms
  by (cases s) (simp add: SendPacketToUser_env_def SendPacketToConnection_env_def)

lemma SendPacketToUser_env_write_failed:
  assumes "M (fst s) data = (Inr j, env1)" and "W env1 (Conn b) j = (Some err, env2)"
  shows "SendPacketToUser_env M W data b s =
    (env2, snd s @ [Marshal_call, Write_failed (Conn b) j, Log_line (error_message err)])"
  using assms
  by (cases s) (simp add: SendPacketToUser_env_def SendPacketToConnection_env_def)

lemma SendPacketToUser_env_written:
  assumes "M (fst s) data = (Inr j, env1)" and "W env1 (Conn b) j = (None, env2)"
  shows "SendPacketToUser_env M W data b s =
    (env2, snd s @ [Marshal_call, Write_ok (Conn b) j,
                    Log_line (Sprintf ''SENT - %v'' [String_arg j])])"
  using assms
  by (cases s) (simp add: SendPacketToUser_env_def SendPacketToConnection_env_def)

lemma SendPacketToUser_env_extends:
  "\<exists>ext. snd (SendPacketToUser_env M W data b s) = snd s @ ext \<and> marshal_calls ext = 1"
proof -
  obtain r env1 where m: "M (fst s) data = (r, env1)"
    by (cases "M (fst s) data")
  show ?thesis
  proof (cases r)
    case (Inl err)
    then show ?thesis
      using SendPacketToUser_env_unserialisable [of M s data err env1 W b] m
      by (simp add: marshal_calls_def)
  next
    case (Inr j)
    obtain w env2 where w: "W env1 (Conn b) j = (w, env2)"
      by (cases "W env1 (Conn b) j")
    show ?thesis
    proof (cases w)
      case None
      then show ?thesis
        using SendPacketToUser_env_written [of M s data j env1 W b env2] m w Inr
        by (simp add: marshal_calls_def)
    next
      case (Some err)
      then show ?thesis
        using SendPacketToUser_env_write_failed [of M s data j env1 W b err env2] m w Inr
        by (simp add: marshal_calls_def)
    qed
  qed
qed

lemma SendPacketToUsers_env_extends:
  "\<exists>ext. snd (SendPacketToUsers_env M W data users s) = snd s @ ext
         \<and> marshal_calls ext = length users"
proof (induction users arbitrary: s)
  case Nil
  show ?case by (simp add: marshal_calls_def)
next
  case (Cons user users)
  obtain e1 where e1: "snd (SendPacketToUser_env M W data user s) = snd s @ e1"
    and c1: "marshal_calls e1 = 1"
    using SendPacketToUser_env_extends [of M W data user s] by blast
  obtain e2 where e2: "snd (SendPacketToUsers_env M W data users (SendPacketToUser_env M W data user s)) =
      snd (SendPacketToUser_env M W data user s) @ e2"
    and c2: "marshal_calls e2 = length users"
    using Cons.IH [of "SendPacketToUser_env M W data user s"] by blast
  have "snd (SendPacketToUsers_env M W data (user # users) s) = snd s @ (e1 @ e2)"
    using e1 e2 by simp
  moreover have "marshal_calls (e1 @ e2) = length (user # users)"
    using c1 c2 by (simp add: marshal_calls_append)
  ultimately show ?case by blast
qed

lemma SendPacketToUsers_env_keeps:
  "set (snd s) \<subseteq> set (snd (SendPacketToUsers_env M W data users s))"
  using SendPacketToUsers_env_extends [of M W data users s] by auto

text \<open>
  Claim C3. Take any recipient \<open>b\<close> of the list, the recipients \<open>before\<close> it and those
  \<open>after\<close> it, and let \<open>s_b\<close> be the state when the recipients before \<open>b\<close> have been served,
  whatever the serialisations and the writes for them did. The call always returns a state
  and nothing else: there is no error to hand to the caller. It serves \<open>b\<close> from \<open>s_b\<close>
  and then the recipients after \<open>b\<close>; \<open>json.Marshal\<close> is called for every recipient of the
  list, and no event of the trace is taken back. What serving \<open>b\<close> does depends on \<open>b\<close>'s own
  two calls only. When \<open>b\<close>'s serialisation fails, the error is one line of the log. When it
  gives \<open>j\<close>, the write of \<open>j\<close> to \<open>b\<close>'s connection is attempted: a failed write is one line
  of the log, and a write that succeeds delivers \<open>j\<close> to \<open>b\<close>. The attempt on \<open>b\<close>'s connection
  is in the trace that the whole call leaves. So a failed serialisation or a failed write for
  a recipient \<open>A\<close> served before \<open>B\<close> does not keep the bytes from \<open>B\<close>.
\<close>

theorem SendPacketToUsers_isolates_recipient_failures:
  assumes "s_b = SendPacketToUsers_env Marshal WriteServerText data before s"
    and "s_end = SendPacketToUsers_env Marshal WriteServerText data (before @ b # after) s"
  shows "s_end = SendPacketToUsers_env Marshal WriteServerText data after
                   (SendPacketToUser_env Marshal WriteServerText data b s_b)
    \<and> (\<exists>ext. snd s_end = snd s @ ext \<and> marshal_calls ext = length (before @ b # after))
    \<and> (\<forall>err env1. Marshal (fst s_b) data = (Inl err, env1) \<longrightarrow>
          SendPacketToUser_env Marshal WriteServerText data b s_b =
            (env1, snd s_b @ [Marshal_call, Log_line (error_message err)]))
    \<and> (\<forall>j env1. Marshal (fst s_b) data = (Inr j, env1) \<longrightarrow>
          (\<forall>err env2. WriteServerText env1 (Conn b) j = (Some err, env2) \<longrightarrow>
             SendPacketToUser_env Marshal WriteServerText data b s_b =
               (env2, snd s_b @ [Marshal_call, Write_failed (Conn b) j, Log_line (error_message err)])
             \<and> Write_failed (Conn b) j \<in> set (snd s_end))
        \<and> (\<forall>env2. WriteServerText env1 (Conn b) j = (None, env2) \<longrightarrow>
             SendPacketToUser_env Marshal WriteServerText data b s_b =
               (env2, snd s_b @ [Marshal_call, Write_ok (Conn b) j,
                                 Log_line (Sprintf ''SENT - %v'' [String_arg j])])
             \<and> Write_ok (Conn b) j \<in> set (snd s_end)))"
proof -
  let ?M = Marshal and ?W = WriteServerText
  have split: "s_end = SendPacketToUsers_env ?M ?W data after (SendPacketToUser_env ?M ?W data b s_b)"
    unfolding assms by (simp add: SendPacketToUsers_env_append)
  have grows: "\<exists>ext. snd s_end = snd s @ ext \<and> marshal_calls ext = length (before @ b # after)"
    unfolding assms(2) by (rule SendPacketToUsers_env_extends)
  have kept: "set (snd (SendPacketToUser_env ?M ?W data b s_b)) \<subseteq> set (snd s_end)"
    unfolding split by (rule SendPacketToUsers_env_keeps)
  have unser: "SendPacketToUser_env ?M ?W data b s_b =
      (env1, snd s_b @ [Marshal_call, Log_line (error_message err)])"
    if "?M (fst s_b) data = (Inl err, env1)" for err env1
    using that by (rule SendPacketToUser_env_unserialisable)
  have failed: "SendPacketToUser_env ?M ?W data b s_b =
        (env2, snd s_b @ [Marshal_call, Write_failed (Conn b) j, Log_line (error_message err)])
      \<and> Write_failed (Conn b) j \<in> set (snd s_end)"
    if "?M (fst s_b) data = (Inr j, env1)" and "?W env1 (Conn b) j = (Some err, env2)"
    for j env1 err env2
  proof -
    have eq: "SendPacketToUser_env ?M ?W data b s_b =
        (env2, snd s_b @ [Marshal_call, Write_failed (Conn b) j, Log_line (error_message err)])"
      using that by (rule SendPacketToUser_env_write_failed)
    then have "Write_failed (Conn b) j \<in> set (snd (SendPacketToUser_env ?M ?W data b s_b))"
      by simp
    then show ?thesis
      using eq kept by blast
  qed
  have written: "SendPacketToUser_env ?M ?W data b s_b =
        (env2, snd s_b @ [Marshal_call, Write_ok (Conn b) j,
                          Log_line (Sprintf ''SENT - %v'' [String_arg j])])
      \<and> Write_ok (Conn b) j \<in> set (snd s_end)"
    if "?M (fst s_b) data = (Inr j, env1)" and "?W env1 (Conn b) j = (None, env2)"
    for j env1 env2
  proof -
    have eq: "SendPacketToUser_env ?M ?W data b s_b =
        (env2, snd s_b @ [Marshal_call, Write_ok (Conn b) j,
                          Log_line (Sprintf ''SENT - %v'' [String_arg j])])"
      using that by (rule SendPacketToUser_env_written)
    then have "Write_ok (Conn b) j \<in> set (snd (SendPacketToUser_env ?M ?W data b s_b))"
      by simp
    then show ?thesis
      using eq kept by blast
  qed
  show ?thesis
    using split grows unser failed written by blast
qed

theorem SendPacketToUsers_isolates_recipient_failures_witness:
  "SendPacketToUsers_env flaky_Marshal (Write_unless 99) (Number 5) [alice, bob] (0, []) =
     (2, [Marshal_call, Log_line ''json: error calling MarshalJSON'',
          Marshal_call, Write_ok 2 ''5'', Log_line ''SENT - 5''])
   \<and> Write_ok (Conn bob) ''5'' \<in>
       set (snd (SendPacketToUsers_env flaky_Marshal (Write_unless 99) (Number 5) [alice, bob] (0, [])))
   \<and> SendPacketToUsers_env steady_Marshal (Write_unless 1) (Number 5) [alice, bob] (0, []) =
     (2, [Marshal_call, Write_failed 1 ''5'', Log_line ''write: broken pipe'',
          Marshal_call, Write_ok 2 ''5'', Log_line ''SENT - 5''])
   \<and> Write_ok (Conn bob) ''5'' \<in>
       set (snd (SendPacketToUsers_env steady_Marshal (Write_unless 1) (Number 5) [alice, bob] (0, [])))"
proof -
  have five: "example_Marshal (Number 5) = Inr ''5''"
    by (simp add: example_Marshal_def Itoa_def nat_decimal.simps digit_char_def)
  have conns: "Conn alice = 1" "Conn bob = 2"
    by (simp_all add: alice_def bob_def)
  have a1: "SendPacketToUsers_env flaky_Marshal (Write_unless 99) (Number 5) [alice] (0, []) =
      (1, [Marshal_call, Log_line ''json: error calling MarshalJSON''])"
    by (simp add: SendPacketToUser_env_def SendPacketToConnection_env_def flaky_Marshal_def)
  have m1: "flaky_Marshal (fst (1 :: nat, [Marshal_call, Log_line ''json: error calling MarshalJSON''])) (Number 5) =
      (Inr ''5'', 2)"
    by (simp add: flaky_Marshal_def five)
  have w1: "Write_unless 99 2 (Conn bob) ''5'' = (None, 2)"
    by (simp add: Write_unless_def write_fails_on_def conns)
  note t1 = SendPacketToUsers_isolates_recipient_failures
    [where Marshal = flaky_Marshal and WriteServerText = "Write_unless 99" and data = "Number 5"
       and before = "[alice]" and b = bob and after = "[]" and s = "(0, [])",
     OF a1 [symmetric] refl]
  have end1: "SendPacketToUsers_env flaky_Marshal (Write_unless 99) (Number 5) ([alice] @ [bob]) (0, []) =
      (2, [Marshal_call, Log_line ''json: error calling MarshalJSON'',
           Marshal_call, Write_ok (Conn bob) ''5'', Log_line (Sprintf ''SENT - %v'' [String_arg ''5''])])"
    using t1 [THEN conjunct1] t1 [THEN conjunct2, THEN conjunct2, THEN conjunct2] m1 w1
    by (simp del: SendPacketToUsers_env.simps(2) append.simps)
  have in1: "Write_ok (Conn bob) ''5'' \<in>
      set (snd (SendPacketToUsers_env flaky_Marshal (Write_unless 99) (Number 5) ([alice] @ [bob]) (0, [])))"
    using t1 [THEN conjunct2, THEN conjunct2, THEN conjunct2] m1 w1
    by (simp del: SendPacketToUsers_env.simps(2) append.simps)
  have a2: "SendPacketToUsers_env steady_Marshal (Write_unless 1) (Number 5) [alice] (0, []) =
      (1, [Marshal_call, Write_failed 1 ''5'', Log_line ''write: broken pipe''])"
    by (simp add: SendPacketToUser_env_def SendPacketToConnection_env_def steady_Marshal_def five
        Write_unless_def write_fails_on_def conns)
  have m2: "steady_Marshal (fst (1 :: nat, [Marshal_call, Write_failed 1 ''5'', Log_line ''write: broken pipe''])) (Number 5) =
      (Inr ''5'', 2)"
    by (simp add: steady_Marshal_def five)
  have w2: "Write_unless 1 2 (Conn bob) ''5'' = (None, 2)"
    by (simp add: Write_unless_def write_fails_on_def conns)
  note t2 = SendPacketToUsers_isolates_recipient_failures
    [where Marshal = steady_Marshal and WriteServerText = "Write_unless 1" and data = "Number 5"
       and before = "[alice]" and b = bob and after = "[]" and s = "(0, [])",
     OF a2 [symmetric] refl]
  have end2: "SendPacketToUsers_env steady_Marshal (Write_unless 1) (Number 5) ([alice] @ [bob]) (0, []) =
      (2, [Marshal_call, Write_failed 1 ''5'', Log_line ''write: broken pipe'',
           Marshal_call, Write_ok (Conn bob) ''5'', Log_line (Sprintf ''SENT - %v'' [String_arg ''5''])])"
    using t2 [THEN conjunct1] t2 [THEN conjunct2, THEN conjunct2, THEN conjunct2] m2 w2
    by (simp del: SendPacketToUsers_env.simps(2) append.simps)
  have in2: "Write_ok (Conn bob) ''5'' \<in>
      set (snd (SendPacketToUsers_env steady_Marshal (Write_unless 1) (Number 5) ([alice] @ [bob]) (0, [])))"
    using t2 [THEN conjunct2, THEN conjunct2, THEN conjunct2] m2 w2
    by (simp del: SendPacketToUsers_env.simps(2) append.simps)
  have list: "[alice] @ [bob] = [alice, bob]"
    by simp
  show ?thesis
    using end1 in1 end2 in2 unfolding list by (simp add: conns)
qed

section \<open>Properties of the status change\<close>

text \<open>
  Claim C6. On a session whose mutex is free, \<open>SetClientStatus\<close> returns; the session it
  leaves is the old one with the new status, its mutex free again. The propagation is handed
  exactly that session (new status in place, mutex released) and the cache, and the cache
  afterwards is the one the propagation leaves. When the propagation fails, its error is one
  more line of the log and the session is the same as when it succeeds; a
  \<open>GetClientStatus\<close> that follows returns the new status.
\<close>

theorem SetClientStatus_sets_then_propagates:
  assumes "\<not> mutex u"
  shows "SetClientStatus addUserClientStatusToRedis new_status (u, cache, lg) =
           Some (u\<lparr>status := new_status\<rparr>,
                 snd (addUserClientStatusToRedis (u\<lparr>status := new_status\<rparr>) cache),
                 (case fst (addUserClientStatusToRedis (u\<lparr>status := new_status\<rparr>) cache) of
                    None \<Rightarrow> lg
                  | Some err \<Rightarrow> lg @ [error_message err]))
       \<and> mutex (u\<lparr>status := new_status\<rparr>) = False
       \<and> GetClientStatus (u\<lparr>status := new_status\<rparr>) = Some (new_status, u\<lparr>status := new_status\<rparr>)"
proof -
  let ?u' = "u\<lparr>status := new_status\<rparr>"
  have lock: "Lock u = Some (u\<lparr>mutex := True\<rparr>)"
    using assms by (simp add: Lock_def)
  have unlock: "Unlock (u\<lparr>mutex := True, status := new_status\<rparr>) = ?u'"
    using assms by (simp add: Unlock_def)
  have set: "SetClientStatus addUserClientStatusToRedis new_status (u, cache, lg) =
      (case addUserClientStatusToRedis ?u' cache of
         (Some err, cache') \<Rightarrow> Some (?u', cache', Println err lg)
       | (None, cache') \<Rightarrow> Some (?u', cache', lg))"
    by (simp add: SetClientStatus_def Let_def lock unlock split: prod.split option.split)
  have get: "GetClientStatus ?u' = Some (new_status, ?u')"
    using assms by (simp add: GetClientStatus_def Lock_def Unlock_def)
  show ?thesis
    unfolding set using assms get
    by (cases "addUserClientStatusToRedis ?u' cache")
      (auto simp: Println_def split: option.split)
qed

theorem SetClientStatus_sets_then_propagates_witness:
  "SetClientStatus status_to_redis playing_status (alice, down_redis, []) =
     Some (alice\<lparr>status := playing_status\<rparr>, down_redis, [''dial tcp: connection refused''])
   \<and> GetClientStatus (alice\<lparr>status := playing_status\<rparr>) =
       Some (playing_status, alice\<lparr>status := playing_status\<rparr>)
   \<and> map_option (\<lambda>(u, rdb, lg). (status u, HGet rdb ''quaver:server:user_status:7'' ''m'', lg))
       (SetClientStatus status_to_redis playing_status (alice, empty_redis, [])) =
       Some (playing_status, Some ''812'', [])"
proof -
  have free: "\<not> mutex alice"
    by (simp add: alice_def)
  have key: "getRedisClientStatusKey (alice\<lparr>status := playing_status\<rparr>) = ''quaver:server:user_status:7''"
    by (simp add: getRedisClientStatusKey_def alice_def Itoa_def nat_decimal.simps digit_char_def)
  have get: "GetClientStatus (alice\<lparr>status := playing_status\<rparr>) =
      Some (playing_status, alice\<lparr>status := playing_status\<rparr>)"
    using free by (simp add: GetClientStatus_def Lock_def Unlock_def)
  have down: "status_to_redis (alice\<lparr>status := playing_status\<rparr>) down_redis =
      (Some (Error ''dial tcp: connection refused''), down_redis)"
    by (simp add: status_to_redis_def get HSet_def down_redis_def)
  have up: "HGet (snd (status_to_redis (alice\<lparr>status := playing_status\<rparr>) empty_redis))
        ''quaver:server:user_status:7'' ''m'' = Some ''812''
      \<and> fst (status_to_redis (alice\<lparr>status := playing_status\<rparr>) empty_redis) = None"
  proof -
    have "status_to_redis (alice\<lparr>status := playing_status\<rparr>) empty_redis =
        HSet empty_redis ''quaver:server:user_status:7''
          [''s'', Itoa (Status playing_status), ''m'', Itoa (Status_MapId playing_status)]"
      by (simp add: status_to_redis_def get key)
    then show ?thesis
      by (simp add: HSet_def HGet_def empty_redis_def playing_status_def
          Itoa_def nat_decimal.simps digit_char_def)
  qed
  show ?thesis
    using SetClientStatus_sets_then_propagates [OF free, of status_to_redis playing_status down_redis "[]"]
      SetClientStatus_sets_then_propagates [OF free, of status_to_redis playing_status empty_redis "[]"]
      down up
    by simp
qed

section \<open>Properties of the cache of multiplayer games\<close>

lemma Itoa_BoolToInt: "Itoa (BoolToInt b) = (if b then ''1'' else ''0'')"
  by (simp add: BoolToInt_def Itoa_def nat_decimal.simps digit_char_def)

lemma HSet_reached:
  assumes "reachable rdb" and "values \<noteq> []" and "even (length values)"
  shows "HSet rdb key values =
    (None, rdb\<lparr>hashes := (hashes rdb)(key \<mapsto>
       hset_fields (case hashes rdb key of None \<Rightarrow> Map.empty | Some h \<Rightarrow> h) values)\<rparr>)"
  using assms by (simp add: HSet_def)

lemma HGet_after_HSet:
  "HGet (rdb\<lparr>hashes := (hashes rdb)(key \<mapsto> h)\<rparr>) key field = h field"
  by (simp add: HGet_def)

subsection \<open>\<open>cacheMatchSettings\<close>\<close>

lemma cacheMatchSettings_reached:
  assumes "reachable rdb"
  shows "cacheMatchSettings FormatFloat game (rdb, lg) =
    (rdb\<lparr>hashes := (hashes rdb)(getMatchSettingsRedisKey game \<mapsto>
       hset_fields (case hashes rdb (getMatchSettingsRedisKey game) of None \<Rightarrow> Map.empty | Some h \<Rightarrow> h)
         (match_settings FormatFloat game))\<rparr>, lg)"
proof -
  have "match_settings FormatFloat game \<noteq> []" and "even (length (match_settings FormatFloat game))"
    by (simp_all add: match_settings_def)
  then show ?thesis
    using assms by (simp add: cacheMatchSettings_def HSet_reached)
qed

text \<open>
  Claim C7. When the command reaches the server, \<open>cacheMatchSettings\<close> leaves under the key
  of the room's settings, and under no other key, a hash in which each of the sixteen fields
  has the value read from the room's settings: the name, the password flag as \<open>0\<close> or \<open>1\<close>,
  the player limit, the map's checksum, id, mapset id and display name, the host's user id,
  the ruleset, the host-rotation flag as \<open>0\<close> or \<open>1\<close>, the map's game mode, the difficulty
  rating as \<open>strconv.FormatFloat\<close> prints it in the format \<open>'f'\<close>, the in-progress flag as
  \<open>0\<close> or \<open>1\<close>, the global modifiers in decimal, the free-mod type and the tournament flag as
  \<open>0\<close> or \<open>1\<close>. Nothing is logged.
\<close>

theorem cacheMatchSettings_writes_all_fields:
  assumes "reachable rdb"
    and "cacheMatchSettings FormatFloat game (rdb, lg) = (rdb', lg')"
  shows "HGet rdb' (getMatchSettingsRedisKey game) ''n'' = Some (Name (Data game))
    \<and> HGet rdb' (getMatchSettingsRedisKey game) ''pw'' = Some (if HasPassword (Data game) then ''1'' else ''0'')
    \<and> HGet rdb' (getMatchSettingsRedisKey game) ''mp'' = Some (Itoa (MaxPlayers (Data game)))
    \<and> HGet rdb' (getMatchSettingsRedisKey game) ''md5'' = Some (MapMD5 (Data game))
    \<and> HGet rdb' (getMatchSettingsRedisKey game) ''mid'' = Some (Itoa (MapId (Data game)))
    \<and> HGet rdb' (getMatchSettingsRedisKey game) ''msid'' = Some (Itoa (MapsetId (Data game)))
    \<and> HGet rdb' (getMatchSettingsRedisKey game) ''map'' = Some (MapName (Data game))
    \<and> HGet rdb' (getMatchSettingsRedisKey game) ''host'' = Some (Itoa (HostId (Data game)))
    \<and> HGet rdb' (getMatchSettingsRedisKey game) ''r'' = Some (Itoa (Ruleset (Data game)))
    \<and> HGet rdb' (getMatchSettingsRedisKey game) ''hr'' = Some (if IsHostRotation (Data game) then ''1'' else ''0'')
    \<and> HGet rdb' (getMatchSettingsRedisKey game) ''gm'' = Some (Itoa (MapGameMode (Data game)))
    \<and> HGet rdb' (getMatchSettingsRedisKey game) ''d'' =
        Some (FormatFloat (MapDifficultyRating (Data game)) CHR ''f'' (- 1) 64)
    \<and> HGet rdb' (getMatchSettingsRedisKey game) ''inp'' = Some (if InProgress (Data game) then ''1'' else ''0'')
    \<and> HGet rdb' (getMatchSettingsRedisKey game) ''m'' = Some (Itoa (sint (GlobalModifiers (Data game))))
    \<and> HGet rdb' (getMatchSettingsRedisKey game) ''fm'' = Some (Itoa (FreeModType (Data game)))
    \<and> HGet rdb' (getMatchSettingsRedisKey game) ''trn'' = Some (if IsTournamentMode (Data game) then ''1'' else ''0'')
    \<and> (\<forall>key. key \<noteq> getMatchSettingsRedisKey game \<longrightarrow> hashes rdb' key = hashes rdb key)
    \<and> lg' = lg"
proof -
  let ?old = "case hashes rdb (getMatchSettingsRedisKey game) of None \<Rightarrow> Map.empty | Some h \<Rightarrow> h"
  let ?h = "hset_fields ?old (match_settings FormatFloat game)"
  have r: "rdb' = rdb\<lparr>hashes := (hashes rdb)(getMatchSettingsRedisKey game \<mapsto> ?h)\<rparr>" and l: "lg' = lg"
    using assms(2) unfolding cacheMatchSettings_reached [OF assms(1)] by simp_all
  have get: "HGet rdb' (getMatchSettingsRedisKey game) field = ?h field" for field
    unfolding r by (rule HGet_after_HSet)
  have others: "\<forall>key. key \<noteq> getMatchSettingsRedisKey game \<longrightarrow> hashes rdb' key = hashes rdb key"
    unfolding r by simp
  have fields:
    "?h ''n'' = Some (Name (Data game))"
    "?h ''pw'' = Some (if HasPassword (Data game) then ''1'' else ''0'')"
    "?h ''mp'' = Some (Itoa (MaxPlayers (Data game)))"
    "?h ''md5'' = Some (MapMD5 (Data game))"
    "?h ''mid'' = Some (Itoa (MapId (Data game)))"
    "?h ''msid'' = Some (Itoa (MapsetId (Data game)))"
    "?h ''map'' = Some (MapName (Data game))"
    "?h ''host'' = Some (Itoa (HostId (Data game)))"
    "?h ''r'' = Some (Itoa (Ruleset (Data game)))"
    "?h ''hr'' = Some (if IsHostRotation (Data game) then ''1'' else ''0'')"
    "?h ''gm'' = Some (Itoa (MapGameMode (Data game)))"
    "?h ''d'' = Some (FormatFloat (MapDifficultyRating (Data game)) CHR ''f'' (- 1) 64)"
    "?h ''inp'' = Some (if InProgress (Data game) then ''1'' else ''0'')"
    "?h ''m'' = Some (Itoa (sint (GlobalModifiers (Data game))))"
    "?h ''fm'' = Some (Itoa (FreeModType (Data game)))"
    "?h ''trn'' = Some (if IsTournamentMode (Data game) then ''1'' else ''0'')"
    by (simp_all add: match_settings_def Itoa_BoolToInt)
  show ?thesis
    unfolding get using fields others l by blast
qed

theorem cacheMatchSettings_writes_all_fields_witness:
  "map (HGet (fst (cacheMatchSettings example_FormatFloat room42 (empty_redis, []))) ''quaver:server:multiplayer:42'')
     [''n'', ''pw'', ''mp'', ''md5'', ''mid'', ''msid'', ''map'', ''host'', ''r'', ''hr'', ''gm'', ''d'',
      ''inp'', ''m'', ''fm'', ''trn''] =
   [Some ''room'', Some ''1'', Some ''8'', Some ''d41d8cd9'', Some ''812'', Some ''90'', Some ''Song'',
    Some ''7'', Some ''0'', Some ''0'', Some ''1'', Some ''25'', Some ''0'', Some ''16'', Some ''2'',
    Some ''0'']
   \<and> snd (cacheMatchSettings example_FormatFloat room42 (empty_redis, [])) = []"
proof -
  have up: "reachable empty_redis"
    by (simp add: empty_redis_def)
  have key: "getMatchSettingsRedisKey room42 = ''quaver:server:multiplayer:42''"
    by (simp add: getMatchSettingsRedisKey_def room42_def Itoa_def nat_decimal.simps digit_char_def)
  have texts: "Itoa 8 = ''8''" "Itoa 812 = ''812''" "Itoa 90 = ''90''" "Itoa 7 = ''7''"
    "Itoa 0 = ''0''" "Itoa 1 = ''1''" "Itoa 2 = ''2''" "Itoa 16 = ''16''"
    by (simp_all add: Itoa_def nat_decimal.simps digit_char_def)
  show ?thesis
    using cacheMatchSettings_writes_all_fields
      [OF up surjective_pairing, of example_FormatFloat room42 "[]"]
    unfolding key
    by (simp add: room42_def example_FormatFloat_def texts)
qed

subsection \<open>\<open>cachePlayer\<close>\<close>

lemma cachePlayer_reached:
  assumes "GetUserById player_id = Some user" and "reachable rdb"
  shows "cachePlayer GetUserById game player_id (rdb, lg) =
    (rdb\<lparr>hashes := (hashes rdb)(getPlayerRedisKey game player_id \<mapsto>
       hset_fields (case hashes rdb (getPlayerRedisKey game player_id) of None \<Rightarrow> Map.empty | Some h \<Rightarrow> h)
         (player_fields game player_id user))\<rparr>, lg)"
proof -
  have "player_fields game player_id user \<noteq> []" and "even (length (player_fields game player_id user))"
    by (simp_all add: player_fields_def Let_def)
  then show ?thesis
    using assms by (simp add: cachePlayer_def HSet_reached)
qed

text \<open>
  Claim C8, as the code has it. For a user id with a live session, when the command reaches
  the server, the record that \<open>cachePlayer\<close> leaves under the player's key has the field \<open>r\<close>
  equal to \<open>1\<close> exactly when the user id is in the room's ready list, and \<open>0\<close> otherwise, and
  the field \<open>hm\<close> equal to \<open>1\<close> exactly when the user id is not in the room's without-map list,
  and \<open>0\<close> otherwise. For player 7 of room 42 the key is
  \<open>quaver:server:multiplayer:42:player:7\<close>, and its field \<open>r\<close> is \<open>1\<close> once 7 is in the ready
  list.
\<close>

theorem cachePlayer_ready_and_has_map_fields:
  assumes "GetUserById player_id = Some user" and "reachable rdb"
    and "cachePlayer GetUserById game player_id (rdb, lg) = (rdb', lg')"
  shows "HGet rdb' (getPlayerRedisKey game player_id) ''r'' =
           Some (if player_id \<in> set (PlayersReady (Data game)) then ''1'' else ''0'')
    \<and> (HGet rdb' (getPlayerRedisKey game player_id) ''r'' = Some ''1'') =
        (player_id \<in> set (PlayersReady (Data game)))
    \<and> HGet rdb' (getPlayerRedisKey game player_id) ''hm'' =
           Some (if player_id \<in> set (PlayersWithoutMap (Data game)) then ''0'' else ''1'')
    \<and> (HGet rdb' (getPlayerRedisKey game player_id) ''hm'' = Some ''1'') =
        (player_id \<notin> set (PlayersWithoutMap (Data game)))
    \<and> (Game_Id (Data game) = 42 \<and> player_id = 7 \<and> 7 \<in> set (PlayersReady (Data game)) \<longrightarrow>
         HGet rdb' ''quaver:server:multiplayer:42:player:7'' ''r'' = Some ''1'')"
proof -
  let ?key = "getPlayerRedisKey game player_id"
  let ?old = "case hashes rdb ?key of None \<Rightarrow> Map.empty | Some h \<Rightarrow> h"
  let ?h = "hset_fields ?old (player_fields game player_id user)"
  have r: "rdb' = rdb\<lparr>hashes := (hashes rdb)(?key \<mapsto> ?h)\<rparr>"
    using assms(3) unfolding cachePlayer_reached [where GetUserById = GetUserById and player_id = player_id, OF assms(1,2)] by simp
  have get: "HGet rdb' ?key field = ?h field" for field
    unfolding r by (rule HGet_after_HSet)
  have ready: "?h ''r'' = Some (if player_id \<in> set (PlayersReady (Data game)) then ''1'' else ''0'')"
    by (simp add: player_fields_def Let_def Itoa_BoolToInt Includes_def)
  have has_map: "?h ''hm'' = Some (if player_id \<in> set (PlayersWithoutMap (Data game)) then ''0'' else ''1'')"
    by (simp add: player_fields_def Let_def Itoa_BoolToInt Includes_def)
  have key: "Game_Id (Data game) = 42 \<and> player_id = 7 \<longrightarrow> ?key = ''quaver:server:multiplayer:42:player:7''"
    by (simp add: getPlayerRedisKey_def Itoa_def nat_decimal.simps digit_char_def)
  have room42: "Game_Id (Data game) = 42 \<and> player_id = 7 \<and> 7 \<in> set (PlayersReady (Data game)) \<longrightarrow>
      HGet rdb' ''quaver:server:multiplayer:42:player:7'' ''r'' = Some ''1''"
    using key get [of "''r''"] ready by auto
  show ?thesis
    unfolding get using ready has_map room42 by simp
qed

theorem cachePlayer_ready_and_has_map_fields_witness:
  "HGet (fst (cachePlayer online room42 7 (empty_redis, []))) ''quaver:server:multiplayer:42:player:7'' ''r'' = Some ''1''
   \<and> HGet (fst (cachePlayer online room42 7 (empty_redis, []))) ''quaver:server:multiplayer:42:player:7'' ''hm'' = Some ''1''
   \<and> HGet (fst (cachePlayer online room42 8 (empty_redis, []))) ''quaver:server:multiplayer:42:player:8'' ''r'' = Some ''0''
   \<and> HGet (fst (cachePlayer online room42 8 (empty_redis, []))) ''quaver:server:multiplayer:42:player:8'' ''hm'' = Some ''0''"
proof -
  have up: "reachable empty_redis"
    by (simp add: empty_redis_def)
  have a: "online 7 = Some alice" and b: "online 8 = Some bob"
    by (simp_all add: online_def)
  have keys: "getPlayerRedisKey room42 7 = ''quaver:server:multiplayer:42:player:7''"
    "getPlayerRedisKey room42 8 = ''quaver:server:multiplayer:42:player:8''"
    by (simp_all add: getPlayerRedisKey_def room42_def Itoa_def nat_decimal.simps digit_char_def)
  show ?thesis
    using cachePlayer_ready_and_has_map_fields
        [where GetUserById = online and player_id = 7 and game = room42 and lg = "[]",
         OF a up surjective_pairing]
      cachePlayer_ready_and_has_map_fields
        [where GetUserById = online and player_id = 8 and game = room42 and lg = "[]",
         OF b up surjective_pairing]
    unfolding keys
    by (simp add: room42_def)
qed

theorem cachePlayer_published_key_counterexample:
  "7 \<in> set (PlayersReady (Data room42))
   \<and> online 7 = Some alice
   \<and> HGet (fst (cachePlayer online room42 7 (empty_redis, []))) ''server:multiplayer:42:player:7'' ''r'' = None
   \<and> HGet (fst (cachePlayer online room42 7 (empty_redis, []))) ''quaver:server:multiplayer:42:player:7'' ''r'' = Some ''1''"
proof -
  have up: "reachable empty_redis"
    by (simp add: empty_redis_def)
  have a: "online 7 = Some alice"
    by (simp add: online_def)
  have key: "getPlayerRedisKey room42 7 = ''quaver:server:multiplayer:42:player:7''"
    by (simp add: getPlayerRedisKey_def room42_def Itoa_def nat_decimal.simps digit_char_def)
  have ready: "hset_fields Map.empty (player_fields room42 7 alice) ''r'' = Some ''1''"
    by (simp add: player_fields_def Let_def Itoa_BoolToInt Includes_def room42_def)
  show ?thesis
    unfolding cachePlayer_reached [where GetUserById = online and player_id = 7, OF a up] key
    using a ready by (simp add: HGet_def empty_redis_def room42_def)
qed

text \<open>
  Claim C10. For a user id without a live session, \<open>cachePlayer\<close> returns the server and the
  log as it found them: no command is issued, so the player's record is neither created nor
  modified.
\<close>

theorem cachePlayer_without_session_writes_nothing:
  assumes "GetUserById player_id = None"
  shows "cachePlayer GetUserById game player_id (rdb, lg) = (rdb, lg)"
  using assms by (simp add: cachePlayer_def)

theorem cachePlayer_without_session_writes_nothing_witness:
  "online 9 = None
   \<and> cachePlayer online room42 9 (empty_redis, []) = (empty_redis, [])
   \<and> HGet (fst (cachePlayer online room42 9 (empty_redis, []))) ''quaver:server:multiplayer:42:player:9'' ''r'' = None"
proof -
  have off: "online 9 = None"
    by (simp add: online_def)
  show ?thesis
    using off cachePlayer_without_session_writes_nothing
        [where GetUserById = online and player_id = 9 and game = room42 and rdb = empty_redis and lg = "[]", OF off]
    by (simp add: HGet_def empty_redis_def)
qed

subsection \<open>\<open>deleteCachedPlayer\<close>\<close>

text \<open>
  Claim C9. \<open>deleteCachedPlayer\<close> always returns the server and the log, never an error.
  When the command reaches the server, nothing is stored any more under the player's key, so
  a lookup of the key or of any of its fields finds nothing; the other keys and the log are
  as before. When it does not, the server is unchanged and the failure is one more line of
  the log.
\<close>

theorem deleteCachedPlayer_removes_record:
  assumes "deleteCachedPlayer game userId (rdb, lg) = (rdb', lg')"
  shows "(reachable rdb \<longrightarrow>
            hashes rdb' (getPlayerRedisKey game userId) = None
          \<and> (\<forall>field. HGet rdb' (getPlayerRedisKey game userId) field = None)
          \<and> (\<forall>key. key \<noteq> getPlayerRedisKey game userId \<longrightarrow> hashes rdb' key = hashes rdb key)
          \<and> lg' = lg)
       \<and> (\<not> reachable rdb \<longrightarrow>
            rdb' = rdb
          \<and> lg' = lg @ [''Failed to remove multiplayer player  in redis - dial tcp: connection refused'' @ [CHR 0x0A]])"
  using assms
  by (auto simp: deleteCachedPlayer_def Del_def HGet_def Printf_def)

theorem deleteCachedPlayer_removes_record_witness:
  "hashes (fst (cachePlayer online room42 7 (empty_redis, []))) ''quaver:server:multiplayer:42:player:7'' \<noteq> None
   \<and> hashes (fst (deleteCachedPlayer room42 7 (cachePlayer online room42 7 (empty_redis, []))))
        ''quaver:server:multiplayer:42:player:7'' = None
   \<and> deleteCachedPlayer room42 7 (down_redis, []) =
       (down_redis, [''Failed to remove multiplayer player  in redis - dial tcp: connection refused'' @ [CHR 0x0A]])"
proof -
  have up: "reachable empty_redis" and down: "\<not> reachable down_redis"
    by (simp_all add: empty_redis_def down_redis_def)
  have a: "online 7 = Some alice"
    by (simp add: online_def)
  have key: "getPlayerRedisKey room42 7 = ''quaver:server:multiplayer:42:player:7''"
    by (simp add: getPlayerRedisKey_def room42_def Itoa_def nat_decimal.simps digit_char_def)
  obtain rdb1 where cached: "cachePlayer online room42 7 (empty_redis, []) = (rdb1, [])"
    and rdb1: "rdb1 = empty_redis\<lparr>hashes := (hashes empty_redis)(''quaver:server:multiplayer:42:player:7'' \<mapsto>
       hset_fields (case hashes empty_redis ''quaver:server:multiplayer:42:player:7'' of None \<Rightarrow> Map.empty | Some h \<Rightarrow> h)
         (player_fields room42 7 alice))\<rparr>"
    using cachePlayer_reached [where GetUserById = online and player_id = 7 and game = room42 and lg = "[]", OF a up]
    unfolding key by simp
  have up1: "reachable rdb1"
    unfolding rdb1 using up by simp
  have stored: "hashes rdb1 ''quaver:server:multiplayer:42:player:7'' \<noteq> None"
    unfolding rdb1 by simp
  have gone: "hashes (fst (deleteCachedPlayer room42 7 (rdb1, []))) ''quaver:server:multiplayer:42:player:7'' = None"
    using deleteCachedPlayer_removes_record
        [where game = room42 and userId = 7 and rdb = rdb1 and lg = "[]", OF surjective_pairing] up1
    unfolding key by simp
  have failed: "deleteCachedPlayer room42 7 (down_redis, []) =
       (down_redis, [''Failed to remove multiplayer player  in redis - dial tcp: connection refused'' @ [CHR 0x0A]])"
    using deleteCachedPlayer_removes_record
        [where game = room42 and userId = 7 and rdb = down_redis and lg = "[]", OF surjective_pairing] down
    by (simp add: prod_eq_iff)
  show ?thesis
    unfolding cached using stored gone failed by simp
qed

end
